theory Spec2Isabelle
  imports Main "HOL-Library.Sublist"
begin

section \<open>Python values and errors\<close>

text \<open>
  The launcher is a single Python file, \<^verbatim>\<open>src/progarmv0.py\<close>. Its JSON documents are
  decoded dictionaries; a key that may be absent is an \<open>option\<close> here, and an access
  \<^verbatim>\<open>d["k"]\<close> to an absent key is the error \<open>KeyError\<close>. Strings are \<open>string\<close>.
\<close>

datatype py_error =
    KeyError string
  | FileNotFoundError string
  | URLError string

text \<open>The content of a file or of a download: a list of bytes.\<close>

type_synonym bytes = "char list"

text \<open>\<^verbatim>\<open>str.lower\<close> on ASCII text.\<close>

definition is_ascii_upper :: "char \<Rightarrow> bool" where
  "is_ascii_upper c = (c \<in> set ''ABCDEFGHIJKLMNOPQRSTUVWXYZ'')"

definition ascii_lower :: "char \<Rightarrow> char" where
  "ascii_lower c =
     (case map_of (zip ''ABCDEFGHIJKLMNOPQRSTUVWXYZ'' ''abcdefghijklmnopqrstuvwxyz'') c of
        None \<Rightarrow> c
      | Some l \<Rightarrow> l)"

definition str_lower :: "string \<Rightarrow> string" where
  "str_lower s = map ascii_lower s"

text \<open>\<^verbatim>\<open>sub in s\<close> on strings: \<open>sub\<close> occurs in \<open>s\<close> as a contiguous substring.\<close>

fun str_contains :: "string \<Rightarrow> string \<Rightarrow> bool" where
  "str_contains sub [] = (sub = [])"
| "str_contains sub (c # cs) = (prefix sub (c # cs) \<or> str_contains sub cs)"

text \<open>\<^verbatim>\<open>sep.join(xs)\<close>.\<close>

fun str_join :: "string \<Rightarrow> string list \<Rightarrow> string" where
  "str_join sep [] = []"
| "str_join sep [x] = x"
| "str_join sep (x # y # ys) = x @ sep @ str_join sep (y # ys)"

text \<open>
  \<^verbatim>\<open>s.replace(old, new)\<close>: the occurrences of \<open>old\<close> are found from left to right and do
  not overlap; text that was inserted is not scanned again (\<open>replace_scan\<close>, for an
  \<open>old\<close> that is not empty). With an empty \<open>old\<close>, Python inserts \<open>new\<close> before every
  character and at the end.
\<close>

fun replace_scan :: "string \<Rightarrow> string \<Rightarrow> string \<Rightarrow> string" where
  "replace_scan old new [] = []"
| "replace_scan old new (c # cs) =
     (if prefix old (c # cs)
      then new @ replace_scan old new (drop (length old - 1) cs)
      else c # replace_scan old new cs)"

definition py_replace :: "string \<Rightarrow> string \<Rightarrow> string \<Rightarrow> string" where
  "py_replace old new s =
     (if old = [] then new @ concat (map (\<lambda>c. c # new) s) else replace_scan old new s)"

text \<open>
  \<^verbatim>\<open>s.split()\<close>: the maximal runs of characters that are not white space. The white
  space is that of ASCII (tab to carriage return, the four separators and the space);
  what else Python counts as white space lies outside ASCII.
\<close>

definition is_space :: "char \<Rightarrow> bool" where
  "is_space c =
     (c \<in> set [CHR 0x09, CHR 0x0A, CHR 0x0B, CHR 0x0C, CHR 0x0D,
                CHR 0x1C, CHR 0x1D, CHR 0x1E, CHR 0x1F, CHR 0x20])"

fun split_acc :: "string \<Rightarrow> string \<Rightarrow> string list" where
  "split_acc cur [] = (if cur = [] then [] else [cur])"
| "split_acc cur (c # cs) =
     (if is_space c then (if cur = [] then split_acc [] cs else cur # split_acc [] cs)
      else split_acc (cur @ [c]) cs)"

definition py_split :: "string \<Rightarrow> string list" where
  "py_split s = split_acc [] s"

text \<open>
  \<^verbatim>\<open>str(n)\<close> of an integer, as the f-string of line 385 formats the value of the memory
  slider.
\<close>

fun str_nat :: "nat \<Rightarrow> string" where
  "str_nat n =
     (if n < 10 then [''0123456789'' ! n]
      else str_nat (n div 10) @ [''0123456789'' ! (n mod 10)])"

definition str_int :: "int \<Rightarrow> string" where
  "str_int i = (if i < 0 then CHR ''-'' # str_nat (nat (- i)) else str_nat (nat i))"

section \<open>The rule evaluator (\<^verbatim>\<open>evaluate_rules\<close>, lines 444-458)\<close>

text \<open>
  One element of a \<^verbatim>\<open>rules\<close> list. \<open>has_features\<close> is \<^verbatim>\<open>"features" in r\<close>;
  \<open>action\<close> is \<^verbatim>\<open>r["action"]\<close> (\<open>None\<close>: the key is absent); \<open>os\<close> is \<open>None\<close> when
  \<^verbatim>\<open>"os" not in r\<close> and otherwise \<open>Some n\<close> with \<open>n\<close> the value of
  \<^verbatim>\<open>r["os"].get("name")\<close> (\<open>None\<close>: the os object has no name).
\<close>

record rule =
  has_features :: bool
  action :: "string option"
  os :: "string option option"

text \<open>The \<^verbatim>\<open>for r in rules\<close> loop, with the accumulator \<^verbatim>\<open>allowed\<close>.\<close>

fun evaluate_loop :: "string \<Rightarrow> bool \<Rightarrow> rule list \<Rightarrow> py_error + bool" where
  "evaluate_loop os_name allowed [] = Inr allowed"
| "evaluate_loop os_name allowed (r # rs) =
     (if has_features r then evaluate_loop os_name allowed rs
      else case action r of
        None \<Rightarrow> Inl (KeyError ''action'')
      | Some a \<Rightarrow>
          if a = ''allow'' then
            (if os r = None \<or> os r = Some (Some os_name)
             then evaluate_loop os_name True rs
             else evaluate_loop os_name allowed rs)
          else if a = ''disallow'' then
            (if os r \<noteq> None \<and> os r = Some (Some os_name)
             then evaluate_loop os_name False rs
             else evaluate_loop os_name allowed rs)
          else evaluate_loop os_name allowed rs)"

definition evaluate_rules :: "rule list \<Rightarrow> string \<Rightarrow> py_error + bool" where
  "evaluate_rules rules os_name =
     (if rules = [] then Inr True else evaluate_loop os_name False rules)"

subsection \<open>The evaluator as the specification words it\<close>

text \<open>
  The effect of one rule on the accumulator as the specification states it: a rule that
  carries only a feature constraint (features, and no os constraint) is skipped; an Allow
  rule with no os constraint, or whose os constraint is the platform, sets the
  accumulator; a Disallow rule whose os constraint is the platform clears it.
\<close>

definition claimed_apply_rule :: "string \<Rightarrow> bool \<Rightarrow> rule \<Rightarrow> bool" where
  "claimed_apply_rule platform acc r =
     (if has_features r \<and> os r = None then acc
      else if action r = Some ''allow'' \<and> (os r = None \<or> os r = Some (Some platform)) then True
      else if action r = Some ''disallow'' \<and> os r = Some (Some platform) then False
      else acc)"

text \<open>
  The same, with the skip as the code has it: every rule that carries a feature
  constraint is skipped, whether or not it also carries an os constraint.
\<close>

definition spec_apply_rule :: "string \<Rightarrow> bool \<Rightarrow> rule \<Rightarrow> bool" where
  "spec_apply_rule platform acc r =
     (if has_features r then acc
      else if action r = Some ''allow'' \<and> (os r = None \<or> os r = Some (Some platform)) then True
      else if action r = Some ''disallow'' \<and> os r = Some (Some platform) then False
      else acc)"

text \<open>A rule list is well formed when every rule the loop does not skip has an action.\<close>

definition rules_have_action :: "rule list \<Rightarrow> bool" where
  "rules_have_action rules = list_all (\<lambda>r. has_features r \<or> action r \<noteq> None) rules"

section \<open>Documents and the environment\<close>

text \<open>
  A conditional argument's \<^verbatim>\<open>"value"\<close>: one string, or a list of strings.
\<close>

datatype arg_val = ValStr string | ValList "string list"

text \<open>
  One element of \<^verbatim>\<open>arguments.jvm\<close> or \<^verbatim>\<open>arguments.game\<close>: a string, an object with its
  optional \<^verbatim>\<open>"rules"\<close> and \<^verbatim>\<open>"value"\<close> keys, or any other JSON value.
\<close>

datatype argument =
    ArgStr string
  | ArgObj "rule list option" "arg_val option"
  | ArgOther

record arguments_obj =
  jvm :: "argument list option"
  game :: "argument list option"

text \<open>
  A library entry: its optional \<^verbatim>\<open>"downloads"\<close> object, that object's optional
  \<^verbatim>\<open>"artifact"\<close>, and the artifact's \<^verbatim>\<open>"path"\<close>.
\<close>

datatype artifact = Artifact (artifact_path: "string option")

datatype downloads_obj = Downloads (downloads_artifact: "artifact option")

datatype library = Library (library_downloads: "downloads_obj option")

text \<open>
  The version descriptor, as \<^verbatim>\<open>json.load\<close> returns it. \<open>assetIndex\<close> is \<open>None\<close> when the
  key is absent and \<open>Some i\<close> with \<open>i\<close> the object's optional \<^verbatim>\<open>"id"\<close> otherwise;
  \<open>version_type\<close> is the key \<^verbatim>\<open>"type"\<close>; \<open>client_url\<close> and \<open>client_sha1\<close> are
  \<^verbatim>\<open>data["downloads"]["client"]["url"]\<close> and \<^verbatim>\<open>["sha1"]\<close>, \<open>None\<close> when a key on the way
  is absent.
\<close>

record version_data =
  mainClass :: "string option"
  libraries :: "library list option"
  arguments :: "arguments_obj option"
  minecraftArguments :: "string option"
  assetIndex :: "string option option"
  version_type :: "string option"
  client_url :: "string option"
  client_sha1 :: "string option"

text \<open>
  What \<^verbatim>\<open>urllib.request.urlretrieve\<close> did: it retrieved the whole content into the target
  file, or it raised, having written nothing (\<open>None\<close>) or a part of the content.
\<close>

datatype retrieve_result = Retrieved bytes | RetrieveFailed "bytes option"

text \<open>
  Everything the launcher takes from outside the file: the standard library
  (\<^verbatim>\<open>os.path.join\<close>, \<^verbatim>\<open>os.path.expanduser\<close>, \<^verbatim>\<open>platform.system\<close>, the hex digest of
  \<^verbatim>\<open>hashlib.sha1\<close>, \<^verbatim>\<open>json.dump\<close>), the network (\<open>url_json\<close>: the document
  \<^verbatim>\<open>json.loads(urlopen(url).read().decode())\<close> yields, \<open>None\<close> when that raises;
  \<open>url_retrieve\<close>: what \<^verbatim>\<open>urlretrieve\<close> does for a URL), and the two methods
  \<^verbatim>\<open>is_java_installed\<close> and \<^verbatim>\<open>generate_offline_uuid\<close>, which
  \<^verbatim>\<open>build_launch_command\<close> calls and the file does not define.
\<close>

record env =
  path_join :: "string list \<Rightarrow> string"
  expanduser :: "string \<Rightarrow> string"
  platform_system :: string
  sha1_hexdigest :: "bytes \<Rightarrow> string"
  json_dump :: "version_data \<Rightarrow> bytes"
  url_json :: "string \<Rightarrow> version_data option"
  url_retrieve :: "string \<Rightarrow> retrieve_result"
  is_java_installed :: bool
  generate_offline_uuid :: "string \<Rightarrow> string"

text \<open>The constants of lines 14-16.\<close>

definition MINECRAFT_DIR :: "env \<Rightarrow> string" where
  "MINECRAFT_DIR e = expanduser e ''~/.minecraft''"

definition VERSIONS_DIR :: "env \<Rightarrow> string" where
  "VERSIONS_DIR e = path_join e [MINECRAFT_DIR e, ''versions'']"

definition JAVA_DIR :: "env \<Rightarrow> string" where
  "JAVA_DIR e = expanduser e ''~/.catclient/java''"

text \<open>
  The paths both \<^verbatim>\<open>download_version_files\<close> and \<^verbatim>\<open>build_launch_command\<close> compute for a
  version: its directory, its descriptor and its client jar.
\<close>

definition version_dir :: "env \<Rightarrow> string \<Rightarrow> string" where
  "version_dir e version = path_join e [VERSIONS_DIR e, version]"

definition json_path :: "env \<Rightarrow> string \<Rightarrow> string" where
  "json_path e version = path_join e [version_dir e version, version @ ''.json'']"

definition jar_path :: "env \<Rightarrow> string \<Rightarrow> string" where
  "jar_path e version = path_join e [version_dir e version, version @ ''.jar'']"

text \<open>The file system: the content of every path that holds a file.\<close>

type_synonym fs = "string \<rightharpoonup> bytes"

section \<open>The artifact fetcher (\<^verbatim>\<open>download_version_files\<close>, \<^verbatim>\<open>verify_file\<close>, lines 329-354)\<close>

definition verify_file :: "env \<Rightarrow> fs \<Rightarrow> string \<Rightarrow> string \<Rightarrow> py_error + bool" where
  "verify_file e files filepath sha1sum =
     (case files filepath of
        None \<Rightarrow> Inl (FileNotFoundError filepath)
      | Some content \<Rightarrow> Inr (sha1_hexdigest e content = sha1sum))"

text \<open>
  What a call did: the file system it leaves, the number of \<^verbatim>\<open>urlretrieve\<close> calls it
  made, whether it showed the dialog "JAR checksum mismatch", and the exception its
  \<^verbatim>\<open>except\<close> clause caught and printed, if any.
\<close>

record outcome =
  files_after :: fs
  retrievals :: nat
  checksum_mismatch :: bool
  caught :: "py_error option"

text \<open>
  Lines 343-346, the client jar: when the file exists and \<^verbatim>\<open>verify_file\<close> accepts it,
  nothing is done; otherwise it is retrieved and verified again.
\<close>

definition ensure_client_jar :: "env \<Rightarrow> fs \<Rightarrow> string \<Rightarrow> string \<Rightarrow> string \<Rightarrow> outcome" where
  "ensure_client_jar e files client sha1 target =
     (if files target \<noteq> None \<and> verify_file e files target sha1 = Inr True
      then \<lparr>files_after = files, retrievals = 0, checksum_mismatch = False, caught = None\<rparr>
      else case url_retrieve e client of
        RetrieveFailed part \<Rightarrow>
          \<lparr>files_after = (case part of None \<Rightarrow> files | Some b \<Rightarrow> files(target \<mapsto> b)),
           retrievals = 1, checksum_mismatch = False, caught = Some (URLError client)\<rparr>
      | Retrieved content \<Rightarrow>
          (case verify_file e (files(target \<mapsto> content)) target sha1 of
             Inl err \<Rightarrow>
               \<lparr>files_after = files(target \<mapsto> content), retrievals = 1,
                checksum_mismatch = False, caught = Some err\<rparr>
           | Inr ok \<Rightarrow>
               \<lparr>files_after = files(target \<mapsto> content), retrievals = 1,
                checksum_mismatch = (\<not> ok), caught = None\<rparr>))"

text \<open>
  The whole method. The descriptor is fetched and written on every call; a failure
  anywhere inside the \<^verbatim>\<open>try\<close> is caught and printed, and what was written stays.
  The file system holds files only: creating the version's directory (line 332) is not
  part of the model.
\<close>

definition download_version_files :: "env \<Rightarrow> fs \<Rightarrow> string \<Rightarrow> string \<Rightarrow> outcome" where
  "download_version_files e files version_id version_url =
     (case url_json e version_url of
        None \<Rightarrow>
          \<lparr>files_after = files, retrievals = 0, checksum_mismatch = False,
           caught = Some (URLError version_url)\<rparr>
      | Some data \<Rightarrow>
          (let files1 = files(json_path e version_id \<mapsto> json_dump e data)
           in case client_url data of
             None \<Rightarrow>
               \<lparr>files_after = files1, retrievals = 0, checksum_mismatch = False,
                caught = Some (KeyError ''url'')\<rparr>
           | Some client \<Rightarrow>
               (case client_sha1 data of
                  None \<Rightarrow>
                    \<lparr>files_after = files1, retrievals = 0, checksum_mismatch = False,
                     caught = Some (KeyError ''sha1'')\<rparr>
                | Some sha1 \<Rightarrow>
                    ensure_client_jar e files1 client sha1 (jar_path e version_id))))"

section \<open>The launch planner (\<^verbatim>\<open>build_launch_command\<close>, lines 356-442)\<close>

text \<open>Lines 366-367: the platform name, with \<open>darwin\<close> renamed.\<close>

definition current_os :: "env \<Rightarrow> string" where
  "current_os e =
     (let s = str_lower (platform_system e) in if s = ''darwin'' then ''osx'' else s)"

text \<open>Line 368.\<close>

definition main_class :: "version_data \<Rightarrow> string" where
  "main_class vd =
     (case mainClass vd of None \<Rightarrow> ''net.minecraft.client.main.Main'' | Some c \<Rightarrow> c)"

text \<open>
  Lines 374-377, the loop over the libraries with the list \<^verbatim>\<open>classpath\<close>: a library with
  \<^verbatim>\<open>"downloads"\<close> and an \<^verbatim>\<open>"artifact"\<close> in it appends the join of the libraries directory and
  the artifact's path.
\<close>

fun add_libraries :: "env \<Rightarrow> string \<Rightarrow> string list \<Rightarrow> library list \<Rightarrow> py_error + string list" where
  "add_libraries e libraries_dir classpath [] = Inr classpath"
| "add_libraries e libraries_dir classpath (lib # libs) =
     (case library_downloads lib of
        None \<Rightarrow> add_libraries e libraries_dir classpath libs
      | Some d \<Rightarrow>
          (case downloads_artifact d of
             None \<Rightarrow> add_libraries e libraries_dir classpath libs
           | Some a \<Rightarrow>
               (case artifact_path a of
                  None \<Rightarrow> Inl (KeyError ''path'')
                | Some p \<Rightarrow>
                    add_libraries e libraries_dir
                      (classpath @ [path_join e [libraries_dir, p]]) libs)))"

definition libraries_dir :: "env \<Rightarrow> string" where
  "libraries_dir e = path_join e [MINECRAFT_DIR e, ''libraries'']"

text \<open>Lines 371-377: the list \<^verbatim>\<open>classpath\<close>.\<close>

definition library_list :: "version_data \<Rightarrow> library list" where
  "library_list vd = (case libraries vd of None \<Rightarrow> [] | Some libs \<Rightarrow> libs)"

definition classpath_entries :: "env \<Rightarrow> string \<Rightarrow> version_data \<Rightarrow> py_error + string list" where
  "classpath_entries e version vd =
     add_libraries e (libraries_dir e) [jar_path e version] (library_list vd)"

text \<open>Line 378: \<^verbatim>\<open>classpath_str\<close>.\<close>

definition classpath_join :: "string \<Rightarrow> string list \<Rightarrow> string" where
  "classpath_join os_name classpath =
     (if os_name = ''windows'' then str_join '';'' classpath else str_join '':'' classpath)"

text \<open>Lines 380-383.\<close>

definition java_exe :: "env \<Rightarrow> string" where
  "java_exe e =
     (if is_java_installed e then ''java''
      else path_join e [JAVA_DIR e, ''jdk-21.0.5+11'', ''bin'',
                        if current_os e = ''windows'' then ''java.exe'' else ''java''])"

text \<open>
  The loop of lines 389-398 over the JVM arguments, which lines 408-417 repeat for the
  game arguments: a string is appended; an object with rules and a value appends its
  value, or the elements of its value, when \<^verbatim>\<open>evaluate_rules\<close> accepts the rules; anything
  else is passed over.
\<close>

fun add_arguments :: "string \<Rightarrow> string list \<Rightarrow> argument list \<Rightarrow> py_error + string list" where
  "add_arguments os_name cmd [] = Inr cmd"
| "add_arguments os_name cmd (ArgStr s # args) = add_arguments os_name (cmd @ [s]) args"
| "add_arguments os_name cmd (ArgObj (Some rules) (Some val) # args) =
     (case evaluate_rules rules os_name of
        Inl err \<Rightarrow> Inl err
      | Inr accepted \<Rightarrow>
          if accepted then
            (case val of
               ValList vs \<Rightarrow> add_arguments os_name (cmd @ vs) args
             | ValStr v \<Rightarrow> add_arguments os_name (cmd @ [v]) args)
          else add_arguments os_name cmd args)"
| "add_arguments os_name cmd (arg # args) = add_arguments os_name cmd args"

text \<open>Lines 399-403, the two fixups on the command built so far.\<close>

definition jvm_fixups :: "string \<Rightarrow> string \<Rightarrow> string list \<Rightarrow> string list" where
  "jvm_fixups os_name natives_path cmd =
     (let cmd1 = (if os_name = ''osx'' \<and> ''-XstartOnFirstThread'' \<notin> set cmd
                  then cmd @ [''-XstartOnFirstThread''] else cmd)
      in if \<not> list_ex (str_contains ''-Djava.library.path'') cmd1
         then cmd1 @ [''-Djava.library.path='' @ natives_path]
         else cmd1)"

text \<open>Lines 385-403: the command up to the JVM flags.\<close>

definition jvm_arguments :: "version_data \<Rightarrow> argument list" where
  "jvm_arguments vd =
     (case arguments vd of
        None \<Rightarrow> []
      | Some a \<Rightarrow> (case jvm a of None \<Rightarrow> [] | Some args \<Rightarrow> args))"

definition jvm_part :: "env \<Rightarrow> string \<Rightarrow> int \<Rightarrow> version_data \<Rightarrow> py_error + string list" where
  "jvm_part e version ram vd =
     (case add_arguments (current_os e) [java_exe e, ''-Xmx'' @ str_int ram @ ''G'']
             (jvm_arguments vd) of
        Inl err \<Rightarrow> Inl err
      | Inr cmd \<Rightarrow>
          Inr (jvm_fixups (current_os e) (path_join e [version_dir e version, ''natives'']) cmd))"

text \<open>Lines 406-419: the game arguments before the placeholders are replaced.\<close>

definition game_arguments :: "string \<Rightarrow> version_data \<Rightarrow> py_error + string list" where
  "game_arguments os_name vd =
     (case (case arguments vd of None \<Rightarrow> None | Some a \<Rightarrow> game a) of
        Some args \<Rightarrow> add_arguments os_name [] args
      | None \<Rightarrow>
          (case minecraftArguments vd of
             Some s \<Rightarrow> Inr (py_split s)
           | None \<Rightarrow> Inr []))"

text \<open>Lines 421-434: the dictionary \<^verbatim>\<open>replacements\<close>, in the order of its keys.\<close>

definition replacements :: "env \<Rightarrow> string \<Rightarrow> string \<Rightarrow> version_data \<Rightarrow> (string \<times> string) list" where
  "replacements e username version vd =
     [(''${auth_player_name}'', username),
      (''${version_name}'', version),
      (''${game_directory}'', MINECRAFT_DIR e),
      (''${assets_root}'', path_join e [MINECRAFT_DIR e, ''assets'']),
      (''${assets_index_name}'',
         (case assetIndex vd of Some (Some i) \<Rightarrow> i | _ \<Rightarrow> ''legacy'')),
      (''${auth_uuid}'', generate_offline_uuid e username),
      (''${auth_access_token}'', ''0''),
      (''${user_type}'', ''legacy''),
      (''${version_type}'', (case version_type vd of None \<Rightarrow> ''release'' | Some t \<Rightarrow> t)),
      (''${user_properties}'', ''{}''),
      (''${quickPlayRealms}'', '''')]"

text \<open>Lines 435-438: one \<^verbatim>\<open>replace\<close> per key, each on the result of the one before.\<close>

definition replace_ph :: "(string \<times> string) list \<Rightarrow> string \<Rightarrow> string" where
  "replace_ph reps a = foldl (\<lambda>a (k, v). py_replace k v a) a reps"

text \<open>Lines 405-439: the game arguments with the placeholders replaced.\<close>

definition game_part :: "env \<Rightarrow> string \<Rightarrow> string \<Rightarrow> version_data \<Rightarrow> py_error + string list" where
  "game_part e version username vd =
     (case game_arguments (current_os e) vd of
        Inl err \<Rightarrow> Inl err
      | Inr game_args \<Rightarrow> Inr (map (replace_ph (replacements e username version vd)) game_args))"

text \<open>
  The method. \<open>read\<close> is the descriptor that \<^verbatim>\<open>json.load\<close> reads from the version's
  file, \<open>None\<close> when that raises: then the method shows an error and returns the empty
  list. The argument \<^verbatim>\<open>mod_folder\<close> is not used.
\<close>

definition build_launch_command ::
    "env \<Rightarrow> string \<Rightarrow> string \<Rightarrow> int \<Rightarrow> version_data option \<Rightarrow> py_error + string list" where
  "build_launch_command e version username ram read =
     (case read of
        None \<Rightarrow> Inr []
      | Some vd \<Rightarrow>
          (case classpath_entries e version vd of
             Inl err \<Rightarrow> Inl err
           | Inr classpath \<Rightarrow>
               (case jvm_part e version ram vd of
                  Inl err \<Rightarrow> Inl err
                | Inr cmd \<Rightarrow>
                    (case game_part e version username vd of
                       Inl err \<Rightarrow> Inl err
                     | Inr game_args \<Rightarrow>
                         Inr (cmd @ [''-cp'', classpath_join (current_os e) classpath,
                                     main_class vd] @ game_args)))))"

section \<open>The manifest catalog (\<^verbatim>\<open>load_version_manifest\<close>, lines 270-296)\<close>

text \<open>
  One element of the manifest's \<^verbatim>\<open>"versions"\<close> list and the manifest itself; \<open>None\<close> is
  an absent key. \<open>latest_release\<close> and \<open>latest_snapshot\<close> are
  \<^verbatim>\<open>manifest["latest"]["release"]\<close> and \<^verbatim>\<open>manifest["latest"]["snapshot"]\<close>.
\<close>

record version_entry =
  entry_id :: "string option"
  entry_url :: "string option"
  entry_type :: "string option"

record manifest =
  latest_release :: "string option"
  latest_snapshot :: "string option"
  manifest_versions :: "version_entry list option"

text \<open>
  The two dictionaries of the launcher object that the method updates:
  \<^verbatim>\<open>self.versions\<close> and \<^verbatim>\<open>self.version_categories\<close>.
\<close>

record launcher =
  versions :: "string \<rightharpoonup> string"
  version_categories :: "string \<rightharpoonup> string list"

text \<open>The dictionaries as \<^verbatim>\<open>__init__\<close> creates them (lines 61-69).\<close>

definition init_launcher :: launcher where
  "init_launcher =
     \<lparr>versions = Map.empty,
      version_categories =
        [''Latest Release'' \<mapsto> [], ''Latest Snapshot'' \<mapsto> [], ''Release'' \<mapsto> [],
         ''Snapshot'' \<mapsto> [], ''Old Beta'' \<mapsto> [], ''Old Alpha'' \<mapsto> []]\<rparr>"

text \<open>
  The \<^verbatim>\<open>if\<close>/\<^verbatim>\<open>elif\<close> chain of lines 282-293: the key of the category the id is appended to,
  \<open>None\<close> when no branch is taken. The entry's type is read only when the id is neither
  latest pointer.
\<close>

definition category_of :: "string \<Rightarrow> string \<Rightarrow> string \<Rightarrow> version_entry \<Rightarrow> py_error + string option" where
  "category_of latest_rel latest_snap vid v =
     (if vid = latest_rel then Inr (Some ''Latest Release'')
      else if vid = latest_snap then Inr (Some ''Latest Snapshot'')
      else case entry_type v of
        None \<Rightarrow> Inl (KeyError ''type'')
      | Some t \<Rightarrow>
          if t = ''release'' then Inr (Some ''Release'')
          else if t = ''snapshot'' then Inr (Some ''Snapshot'')
          else if t = ''old_beta'' then Inr (Some ''Old Beta'')
          else if t = ''old_alpha'' then Inr (Some ''Old Alpha'')
          else Inr None)"

text \<open>
  The loop over \<^verbatim>\<open>manifest["versions"]\<close>. An exception leaves the loop; what was
  stored before it stays.
\<close>

fun classify :: "string \<Rightarrow> string \<Rightarrow> launcher \<Rightarrow> version_entry list \<Rightarrow> launcher \<times> py_error option" where
  "classify latest_rel latest_snap st [] = (st, None)"
| "classify latest_rel latest_snap st (v # vs) =
     (case entry_id v of
        None \<Rightarrow> (st, Some (KeyError ''id''))
      | Some vid \<Rightarrow>
          (case entry_url v of
             None \<Rightarrow> (st, Some (KeyError ''url''))
           | Some u \<Rightarrow>
               (let st1 = st\<lparr>versions := (versions st)(vid \<mapsto> u)\<rparr> in
                case category_of latest_rel latest_snap vid v of
                  Inl err \<Rightarrow> (st1, Some err)
                | Inr None \<Rightarrow> classify latest_rel latest_snap st1 vs
                | Inr (Some k) \<Rightarrow>
                    (case version_categories st1 k of
                       None \<Rightarrow> (st1, Some (KeyError k))
                     | Some ids \<Rightarrow>
                         classify latest_rel latest_snap
                           (st1\<lparr>version_categories := (version_categories st1)(k \<mapsto> ids @ [vid])\<rparr>)
                           vs))))"

text \<open>
  The method; \<open>fetched\<close> is the manifest that \<^verbatim>\<open>urlopen\<close> and \<^verbatim>\<open>json.loads\<close> yield,
  \<open>None\<close> when they raise. The categories are emptied once the two latest pointers are
  read. The result is the launcher and the exception that was caught and printed, if any.
  The refresh of the version list on the screen (line 294) is not part of the model.
\<close>

definition load_version_manifest :: "launcher \<Rightarrow> manifest option \<Rightarrow> launcher \<times> py_error option" where
  "load_version_manifest st fetched =
     (case fetched of
        None \<Rightarrow> (st, Some (URLError ''https://launchermeta.mojang.com/mc/game/version_manifest.json''))
      | Some m \<Rightarrow>
          (case latest_release m of
             None \<Rightarrow> (st, Some (KeyError ''release''))
           | Some latest_rel \<Rightarrow>
               (case latest_snapshot m of
                  None \<Rightarrow> (st, Some (KeyError ''snapshot''))
                | Some latest_snap \<Rightarrow>
                    (let st0 = st\<lparr>version_categories :=
                                    (\<lambda>k. map_option (\<lambda>ids. []) (version_categories st k))\<rparr> in
                     case manifest_versions m of
                       None \<Rightarrow> (st0, Some (KeyError ''versions''))
                     | Some vs \<Rightarrow> classify latest_rel latest_snap st0 vs))))"

section \<open>An example environment\<close>

text \<open>\<^verbatim>\<open>posixpath.join\<close>: a component that starts with a slash discards what came before.\<close>

definition posix_join2 :: "string \<Rightarrow> string \<Rightarrow> string" where
  "posix_join2 a b =
     (if prefix ''/'' b then b
      else if a = [] \<or> suffix ''/'' a then a @ b
      else a @ ''/'' @ b)"

fun posix_join :: "string list \<Rightarrow> string" where
  "posix_join [] = []"
| "posix_join (a # ps) = foldl posix_join2 a ps"

text \<open>
  The hex digests that SHA-1 gives the empty content and the content \<open>abc\<close> (the test
  vectors of FIPS 180); the examples hold no other content.
\<close>

definition known_sha1 :: "bytes \<Rightarrow> string" where
  "known_sha1 b =
     (if b = [] then ''da39a3ee5e6b4b0d3255bfef95601890afd80709''
      else if b = ''abc'' then ''a9993e364706816aba3e25717850c26c9cd0d89d''
      else replicate 40 (CHR ''0''))"

text \<open>
  A descriptor with a client jar, two libraries with an artifact and one without, a
  conditional JVM argument and the legacy argument string.
\<close>

definition example_descriptor :: version_data where
  "example_descriptor =
     \<lparr>mainClass = None,
      libraries = Some
        [Library (Some (Downloads (Some (Artifact (Some ''a/a.jar''))))),
         Library (Some (Downloads None)),
         Library (Some (Downloads (Some (Artifact (Some ''b/b.jar'')))))],
      arguments = Some
        \<lparr>jvm = Some
           [ArgStr ''-Dfoo=1'',
            ArgObj (Some [\<lparr>has_features = False, action = Some ''allow'',
                           os = Some (Some ''osx'')\<rparr>])
                   (Some (ValList [''-Xdock:name=x'']))],
         game = None\<rparr>,
      minecraftArguments = Some ''--username ${auth_player_name} --version ${version_name}'',
      assetIndex = Some (Some ''17''),
      version_type = Some ''release'',
      client_url = Some ''https://example.org/client.jar'',
      client_sha1 = Some ''a9993e364706816aba3e25717850c26c9cd0d89d''\<rparr>"

text \<open>
  A Linux host with home directory \<open>/home/steve\<close>; the network serves the descriptor
  above and, as its client jar, the content \<open>abc\<close>.
\<close>

definition example_env :: env where
  "example_env =
     \<lparr>path_join = posix_join,
      expanduser = (\<lambda>p. if prefix ''~'' p then ''/home/steve'' @ drop 1 p else p),
      platform_system = ''Linux'',
      sha1_hexdigest = known_sha1,
      json_dump = (\<lambda>d. ''{}''),
      url_json = (\<lambda>u. if u = ''https://example.org/1.20.json'' then Some example_descriptor
                       else None),
      url_retrieve = (\<lambda>u. if u = ''https://example.org/client.jar'' then Retrieved ''abc''
                           else RetrieveFailed None),
      is_java_installed = True,
      generate_offline_uuid = (\<lambda>u. ''00000000-0000-0000-0000-000000000000'')\<rparr>"

text \<open>The manifest of the specification's scenario.\<close>

definition example_manifest :: manifest where
  "example_manifest =
     \<lparr>latest_release = Some ''1.21'', latest_snapshot = Some ''1.22-pre1'',
      manifest_versions = Some
        [\<lparr>entry_id = Some ''1.21'', entry_url = Some ''https://example.org/1.21.json'',
          entry_type = Some ''release''\<rparr>,
         \<lparr>entry_id = Some ''1.22-pre1'', entry_url = Some ''https://example.org/1.22-pre1.json'',
          entry_type = Some ''snapshot''\<rparr>,
         \<lparr>entry_id = Some ''1.20'', entry_url = Some ''https://example.org/1.20.json'',
          entry_type = Some ''release''\<rparr>]\<rparr>"

section \<open>Notions of the specification\<close>

subsection \<open>Digests and the cache\<close>

text \<open>
  A hex digest as \<^verbatim>\<open>hashlib\<close> prints the 160 bits of SHA-1: forty digits, the letters in
  lower case.
\<close>

definition hex_digest :: "string \<Rightarrow> bool" where
  "hex_digest s = (length s = 40 \<and> list_all (\<lambda>c. c \<in> set ''0123456789abcdef'') s)"

text \<open>
  The cache-hit condition: a file exists at the target path and its content digest equals
  the expected digest.
\<close>

definition cache_hit :: "env \<Rightarrow> fs \<Rightarrow> string \<Rightarrow> string \<Rightarrow> bool" where
  "cache_hit e files target sha1 =
     (case files target of None \<Rightarrow> False | Some content \<Rightarrow> sha1_hexdigest e content = sha1)"

text \<open>A call succeeded: nothing was caught and no checksum mismatch was reported.\<close>

definition succeeded :: "outcome \<Rightarrow> bool" where
  "succeeded r = (caught r = None \<and> \<not> checksum_mismatch r)"

text \<open>The outcome of a call that left the files alone and retrieved nothing.\<close>

definition no_download :: "fs \<Rightarrow> outcome" where
  "no_download files = \<lparr>files_after = files, retrievals = 0, checksum_mismatch = False, caught = None\<rparr>"

subsection \<open>Channels\<close>

text \<open>
  The ids, in manifest order, of the entries that satisfy a condition on the id and the
  entry.
\<close>

definition ids_where :: "(string \<Rightarrow> version_entry \<Rightarrow> bool) \<Rightarrow> version_entry list \<Rightarrow> string list" where
  "ids_where P vs =
     List.map_filter
       (\<lambda>v. case entry_id v of None \<Rightarrow> None | Some vid \<Rightarrow> if P vid v then Some vid else None) vs"

text \<open>Every entry has its three keys; the launcher has its six categories.\<close>

definition entries_complete :: "version_entry list \<Rightarrow> bool" where
  "entries_complete vs =
     list_all (\<lambda>v. entry_id v \<noteq> None \<and> entry_url v \<noteq> None \<and> entry_type v \<noteq> None) vs"

definition category_names :: "string list" where
  "category_names =
     [''Latest Release'', ''Latest Snapshot'', ''Release'', ''Snapshot'', ''Old Beta'', ''Old Alpha'']"

definition has_categories :: "launcher \<Rightarrow> bool" where
  "has_categories st = list_all (\<lambda>k. version_categories st k \<noteq> None) category_names"

subsection \<open>Well-formed descriptors\<close>

text \<open>
  The path a library entry contributes to the classpath: that of its downloadable
  artifact, when it declares one.
\<close>

definition declares_artifact :: "library \<Rightarrow> bool" where
  "declares_artifact lib =
     (case library_downloads lib of None \<Rightarrow> False | Some d \<Rightarrow> downloads_artifact d \<noteq> None)"

definition library_path :: "library \<Rightarrow> string option" where
  "library_path lib =
     (case library_downloads lib of
        None \<Rightarrow> None
      | Some d \<Rightarrow> (case downloads_artifact d of None \<Rightarrow> None | Some a \<Rightarrow> artifact_path a))"

text \<open>Every downloadable artifact of the libraries has its path.\<close>

definition artifacts_have_path :: "library list \<Rightarrow> bool" where
  "artifacts_have_path libs = list_all (\<lambda>lib. \<not> declares_artifact lib \<or> library_path lib \<noteq> None) libs"



subsection \<open>Templates and the single-pass substitution\<close>

text \<open>
  The placeholder keys, in the order of the dictionary \<^verbatim>\<open>replacements\<close>.
\<close>

definition placeholder_keys :: "string list" where
  "placeholder_keys =
     [''${auth_player_name}'', ''${version_name}'', ''${game_directory}'', ''${assets_root}'',
      ''${assets_index_name}'', ''${auth_uuid}'', ''${auth_access_token}'', ''${user_type}'',
      ''${version_type}'', ''${user_properties}'', ''${quickPlayRealms}'']"

text \<open>
  A game argument read as a template: a sequence of plain text and of markers. The
  single-pass substitution replaces every marker that is a key of the table by the key's
  value, once, and leaves everything else as it is.
\<close>

datatype piece = Text string | Mark string

fun piece_text :: "piece \<Rightarrow> string" where
  "piece_text (Text s) = s"
| "piece_text (Mark m) = m"

definition render :: "piece list \<Rightarrow> string" where
  "render ps = concat (map piece_text ps)"

fun substitute_piece :: "(string \<times> string) list \<Rightarrow> piece \<Rightarrow> string" where
  "substitute_piece reps (Text s) = s"
| "substitute_piece reps (Mark m) = (case map_of reps m of None \<Rightarrow> m | Some v \<Rightarrow> v)"

definition substitute :: "(string \<times> string) list \<Rightarrow> piece list \<Rightarrow> string" where
  "substitute reps ps = concat (map (substitute_piece reps) ps)"

text \<open>
  Markers are literal and do not overlap: a marker starts with its only dollar sign, plain
  text has none, and a marker of the template is apart from every key but itself (neither
  is the beginning of the other).
\<close>

definition dollar_free :: "string \<Rightarrow> bool" where
  "dollar_free s = (CHR ''$'' \<notin> set s)"

definition marker :: "string \<Rightarrow> bool" where
  "marker m = (case m of [] \<Rightarrow> False | c # cs \<Rightarrow> c = CHR ''$'' \<and> dollar_free cs)"

definition apart :: "string \<Rightarrow> string \<Rightarrow> bool" where
  "apart k m = (\<not> prefix k m \<and> \<not> prefix m k)"

fun piece_ok :: "string list \<Rightarrow> piece \<Rightarrow> bool" where
  "piece_ok keys (Text s) = dollar_free s"
| "piece_ok keys (Mark m) = (marker m \<and> list_all (\<lambda>k. k = m \<or> apart k m) keys)"

text \<open>
  One replacement seen on the template: the marker that is the key becomes the value, as
  plain text; and the replacements of a whole table, one after another.
\<close>

fun subst1 :: "string \<Rightarrow> string \<Rightarrow> piece \<Rightarrow> piece" where
  "subst1 k v (Text s) = Text s"
| "subst1 k v (Mark m) = (if m = k then Text v else Mark m)"

definition subst_all :: "(string \<times> string) list \<Rightarrow> piece \<Rightarrow> piece" where
  "subst_all reps p = foldl (\<lambda>p (k, v). subst1 k v p) p reps"

text \<open>Every key of the table is a marker and no value holds a dollar sign.\<close>

definition table_ok :: "(string \<times> string) list \<Rightarrow> bool" where
  "table_ok reps = list_all (\<lambda>(k, v). marker k \<and> dollar_free v) reps"

section \<open>Properties of the rule evaluator\<close>

lemma evaluate_loop_foldl:
  "rules_have_action rules \<Longrightarrow>
     evaluate_loop p acc rules = Inr (foldl (spec_apply_rule p) acc rules)"
proof (induction rules arbitrary: acc)
  case Nil
  show ?case by simp
next
  case (Cons r rs)
  from Cons.prems have wf: "rules_have_action rs" and hd: "has_features r \<or> action r \<noteq> None"
    by (simp_all add: rules_have_action_def)
  show ?case
  proof (cases "has_features r")
    case True
    then show ?thesis using Cons.IH [OF wf] by (simp add: spec_apply_rule_def)
  next
    case False
    with hd obtain a where a: "action r = Some a" by auto
    show ?thesis using False a Cons.IH [OF wf]
      by (simp add: spec_apply_rule_def)
  qed
qed

text \<open>
  C1 (amended). For every platform the evaluator returns true on the empty rule list.
  On a non-empty list whose unskipped rules all have an action it starts from false and
  applies the rules in declaration order: a rule with a feature constraint is skipped
  (with or without an os constraint), an Allow rule with no os constraint or with the
  platform as os constraint sets the accumulator, a Disallow rule with the platform as os
  constraint clears it, any other rule leaves it; the final accumulator is returned.
\<close>

theorem C1_evaluate_rules:
  "evaluate_rules [] p = Inr True \<and>
   (rules_have_action rules \<and> rules \<noteq> [] \<longrightarrow>
      evaluate_rules rules p = Inr (foldl (spec_apply_rule p) False rules))"
  by (simp add: evaluate_rules_def evaluate_loop_foldl)

text \<open>
  At a disallow-then-allow list on Linux the later Allow rule overrides the earlier
  Disallow rule.
\<close>

theorem C1_evaluate_rules_witness:
  "evaluate_rules [] ''linux'' = Inr True \<and>
   rules_have_action
     [\<lparr>has_features = False, action = Some ''disallow'', os = Some (Some ''linux'')\<rparr>,
      \<lparr>has_features = False, action = Some ''allow'', os = None\<rparr>] \<and>
   evaluate_rules
     [\<lparr>has_features = False, action = Some ''disallow'', os = Some (Some ''linux'')\<rparr>,
      \<lparr>has_features = False, action = Some ''allow'', os = None\<rparr>] ''linux'' = Inr True"
  using C1_evaluate_rules
    [of "''linux''"
        "[\<lparr>has_features = False, action = Some ''disallow'', os = Some (Some ''linux'')\<rparr>,
          \<lparr>has_features = False, action = Some ''allow'', os = None\<rparr>]"]
  by (simp add: rules_have_action_def spec_apply_rule_def)

text \<open>
  C1 as stated fails: an Allow rule whose os constraint is the platform and that also
  carries a feature constraint is not a rule carrying only a feature constraint, so the
  claim has it set the accumulator; the code skips it and returns false.
\<close>

theorem C1_counterexample:
  "evaluate_rules
     [\<lparr>has_features = True, action = Some ''allow'', os = Some (Some ''linux'')\<rparr>] ''linux''
     = Inr False \<and>
   foldl (claimed_apply_rule ''linux'') False
     [\<lparr>has_features = True, action = Some ''allow'', os = Some (Some ''linux'')\<rparr>] = True"
  by (simp add: evaluate_rules_def claimed_apply_rule_def)

section \<open>Properties of digest verification\<close>

lemma hex_char_not_upper:
  assumes "c \<in> set ''0123456789abcdef''"
  shows "\<not> is_ascii_upper c"
proof -
  have "list_all (\<lambda>c. \<not> is_ascii_upper c) ''0123456789abcdef''"
    by code_simp
  with assms show ?thesis
    unfolding list_all_iff by blast
qed

lemma hex_char_lower:
  assumes "c \<in> set ''0123456789abcdef''"
  shows "ascii_lower c = c"
proof -
  have "list_all (\<lambda>c. ascii_lower c = c) ''0123456789abcdef''"
    by code_simp
  with assms show ?thesis
    unfolding list_all_iff by blast
qed

lemma hex_digest_lower: "hex_digest s \<Longrightarrow> str_lower s = s"
proof -
  assume "hex_digest s"
  then have "\<forall>c\<in>set s. c \<in> set ''0123456789abcdef''"
    unfolding hex_digest_def list_all_iff by blast
  then have "map ascii_lower s = s"
    by (intro map_idI) (blast intro: hex_char_lower)
  then show ?thesis by (simp only: str_lower_def)
qed

lemma hex_digest_no_upper: "hex_digest s \<Longrightarrow> \<not> list_ex is_ascii_upper s"
  unfolding hex_digest_def list_all_iff list_ex_iff
  by (blast dest: hex_char_not_upper)

text \<open>
  C7 (amended). Verification compares the hex digest of the file's content with the
  expected string exactly, letter case included: it succeeds exactly when the two strings
  are equal. Where the digest is a lower-case hex digest, this is the comparison up to
  letter case whenever the expected digest has no upper-case letter, and an expected
  digest with an upper-case letter is never accepted.
\<close>

theorem C7_verify_file:
  "files p = Some content \<Longrightarrow>
     verify_file e files p expected = Inr (sha1_hexdigest e content = expected) \<and>
     (hex_digest (sha1_hexdigest e content) \<and> str_lower expected = expected \<longrightarrow>
        verify_file e files p expected
          = Inr (str_lower (sha1_hexdigest e content) = str_lower expected)) \<and>
     (hex_digest (sha1_hexdigest e content) \<and> list_ex is_ascii_upper expected \<longrightarrow>
        verify_file e files p expected = Inr False)"
proof (intro conjI impI)
  assume f: "files p = Some content"
  show v: "verify_file e files p expected = Inr (sha1_hexdigest e content = expected)"
    using f by (simp add: verify_file_def)
  {
    assume "hex_digest (sha1_hexdigest e content) \<and> str_lower expected = expected"
    then show "verify_file e files p expected
          = Inr (str_lower (sha1_hexdigest e content) = str_lower expected)"
      using v hex_digest_lower [of "sha1_hexdigest e content"] by simp
  }
  {
    assume "hex_digest (sha1_hexdigest e content) \<and> list_ex is_ascii_upper expected"
    then show "verify_file e files p expected = Inr False"
      using v hex_digest_no_upper [of "sha1_hexdigest e content"] by auto
  }
qed

text \<open>
  The client jar \<open>abc\<close> is accepted under its lower-case digest and refused under the
  same digest in upper case.
\<close>

theorem C7_verify_file_witness:
  "[''/v/1.20.jar'' \<mapsto> ''abc''] ''/v/1.20.jar'' = Some ''abc'' \<and>
   hex_digest (sha1_hexdigest example_env ''abc'') \<and>
   str_lower ''a9993e364706816aba3e25717850c26c9cd0d89d''
     = ''a9993e364706816aba3e25717850c26c9cd0d89d'' \<and>
   list_ex is_ascii_upper ''A9993E364706816ABA3E25717850C26C9CD0D89D'' \<and>
   verify_file example_env [''/v/1.20.jar'' \<mapsto> ''abc''] ''/v/1.20.jar''
     ''a9993e364706816aba3e25717850c26c9cd0d89d'' = Inr True \<and>
   verify_file example_env [''/v/1.20.jar'' \<mapsto> ''abc''] ''/v/1.20.jar''
     ''A9993E364706816ABA3E25717850C26C9CD0D89D'' = Inr False"
proof -
  have f: "[''/v/1.20.jar'' \<mapsto> ''abc''] ''/v/1.20.jar'' = Some ''abc''"
    by simp
  have h: "hex_digest (sha1_hexdigest example_env ''abc'')"
    by code_simp
  have d: "sha1_hexdigest example_env ''abc'' = ''a9993e364706816aba3e25717850c26c9cd0d89d''"
    by code_simp
  have l: "str_lower ''a9993e364706816aba3e25717850c26c9cd0d89d''
     = ''a9993e364706816aba3e25717850c26c9cd0d89d''"
    by code_simp
  have u: "list_ex is_ascii_upper ''A9993E364706816ABA3E25717850C26C9CD0D89D''"
    by code_simp
  show ?thesis
    using C7_verify_file [of "[''/v/1.20.jar'' \<mapsto> ''abc'']" "''/v/1.20.jar''" "''abc''" example_env
            "''a9993e364706816aba3e25717850c26c9cd0d89d''"]
          C7_verify_file [of "[''/v/1.20.jar'' \<mapsto> ''abc'']" "''/v/1.20.jar''" "''abc''" example_env
            "''A9993E364706816ABA3E25717850C26C9CD0D89D''"]
          f h d l u
    by simp
qed

text \<open>
  C7 as stated fails: the empty file's digest and the expected digest are equal up to
  letter case, and the verification fails.
\<close>

theorem C7_counterexample:
  "verify_file example_env [''/v/e.jar'' \<mapsto> []] ''/v/e.jar''
     ''DA39A3EE5E6B4B0D3255BFEF95601890AFD80709'' = Inr False \<and>
   str_lower (sha1_hexdigest example_env [])
     = str_lower ''DA39A3EE5E6B4B0D3255BFEF95601890AFD80709''"
  by code_simp

section \<open>Properties of the artifact fetcher\<close>

lemma ensure_hit:
  "cache_hit e files jar sha1 \<Longrightarrow> ensure_client_jar e files client sha1 jar = no_download files"
  by (auto simp: cache_hit_def ensure_client_jar_def verify_file_def no_download_def
           split: option.splits)

lemma ensure_miss_retrievals:
  "\<not> cache_hit e files jar sha1 \<Longrightarrow> retrievals (ensure_client_jar e files client sha1 jar) = 1"
  by (auto simp: cache_hit_def ensure_client_jar_def verify_file_def
           split: option.splits retrieve_result.splits)

lemma ensure_succeeded_hit:
  "succeeded (ensure_client_jar e files client sha1 jar) \<Longrightarrow>
     cache_hit e (files_after (ensure_client_jar e files client sha1 jar)) jar sha1"
  by (auto simp: succeeded_def cache_hit_def ensure_client_jar_def verify_file_def
           split: option.splits retrieve_result.splits if_splits)

lemma ensure_mismatch_miss:
  "checksum_mismatch (ensure_client_jar e files client sha1 jar) \<Longrightarrow>
     \<not> cache_hit e (files_after (ensure_client_jar e files client sha1 jar)) jar sha1"
  by (auto simp: cache_hit_def ensure_client_jar_def verify_file_def
           split: option.splits retrieve_result.splits if_splits)

lemma ensure_frame:
  "p \<noteq> jar \<Longrightarrow> files_after (ensure_client_jar e files client sha1 jar) p = files p"
  by (auto simp: ensure_client_jar_def verify_file_def
           split: option.splits retrieve_result.splits sum.splits)

lemma cache_hit_frame:
  "p \<noteq> jar \<Longrightarrow> cache_hit e (files(p \<mapsto> b)) jar sha1 = cache_hit e files jar sha1"
  by (simp add: cache_hit_def)

lemma download_as_ensure:
  "url_json e url = Some data \<Longrightarrow> client_url data = Some client \<Longrightarrow>
   client_sha1 data = Some sha1 \<Longrightarrow>
     download_version_files e files v url
       = ensure_client_jar e (files(json_path e v \<mapsto> json_dump e data)) client sha1 (jar_path e v)"
  by (simp add: download_version_files_def)

text \<open>
  C2. Let the descriptor be fetched with its client URL and digest, and let its path
  differ from the jar's. When a file already exists at the jar's path and its digest
  equals the expected digest, the call retrieves nothing and leaves that file as it is.
  Hence, when a call succeeds, it made one retrieval if it started from a cache miss (none
  if from a hit), and a second call right after it, on the files the first one left and
  with the same remote side, retrieves nothing and changes nothing.
\<close>

theorem C2_cache_hit_idempotent:
  assumes fetch: "url_json e url = Some data" "client_url data = Some client"
      "client_sha1 data = Some sha1"
    and paths: "json_path e v \<noteq> jar_path e v"
  shows "(cache_hit e files (jar_path e v) sha1 \<longrightarrow>
            retrievals (download_version_files e files v url) = 0 \<and>
            files_after (download_version_files e files v url) (jar_path e v)
              = files (jar_path e v)) \<and>
         (succeeded (download_version_files e files v url) \<longrightarrow>
            retrievals (download_version_files e files v url)
              = (if cache_hit e files (jar_path e v) sha1 then 0 else 1) \<and>
            download_version_files e (files_after (download_version_files e files v url)) v url
              = no_download (files_after (download_version_files e files v url)))"
proof -
  let ?f1 = "files(json_path e v \<mapsto> json_dump e data)"
  let ?r1 = "ensure_client_jar e ?f1 client sha1 (jar_path e v)"
  have d1: "download_version_files e files v url = ?r1"
    using fetch by (rule download_as_ensure)
  have hit1: "cache_hit e ?f1 (jar_path e v) sha1 = cache_hit e files (jar_path e v) sha1"
    using paths by (rule cache_hit_frame)
  have a: "retrievals ?r1 = 0 \<and> files_after ?r1 (jar_path e v) = files (jar_path e v)"
    if "cache_hit e files (jar_path e v) sha1"
    using that hit1 paths by (simp add: ensure_hit no_download_def)
  have b: "retrievals ?r1 = (if cache_hit e files (jar_path e v) sha1 then 0 else 1)"
    using hit1
    by (cases "cache_hit e files (jar_path e v) sha1")
       (simp_all add: ensure_hit ensure_miss_retrievals no_download_def)
  have c: "download_version_files e (files_after ?r1) v url = no_download (files_after ?r1)"
    if ok: "succeeded ?r1"
  proof -
    have "files_after ?r1 (json_path e v) = Some (json_dump e data)"
      using paths by (simp add: ensure_frame)
    then have same: "(files_after ?r1)(json_path e v \<mapsto> json_dump e data) = files_after ?r1"
      by (rule map_upd_triv)
    have "download_version_files e (files_after ?r1) v url
            = ensure_client_jar e (files_after ?r1) client sha1 (jar_path e v)"
      using download_as_ensure [OF fetch, of "files_after ?r1" v] same by simp
    also have "\<dots> = no_download (files_after ?r1)"
      using ok by (intro ensure_hit ensure_succeeded_hit)
    finally show ?thesis .
  qed
  show ?thesis
    using a b c unfolding d1 by blast
qed

text \<open>
  From an empty file system the first call retrieves the client jar once, and the call
  after it retrieves nothing.
\<close>

theorem C2_cache_hit_idempotent_witness:
  "url_json example_env ''https://example.org/1.20.json'' = Some example_descriptor \<and>
   client_url example_descriptor = Some ''https://example.org/client.jar'' \<and>
   client_sha1 example_descriptor = Some ''a9993e364706816aba3e25717850c26c9cd0d89d'' \<and>
   json_path example_env ''1.20'' \<noteq> jar_path example_env ''1.20'' \<and>
   \<not> cache_hit example_env Map.empty (jar_path example_env ''1.20'')
       ''a9993e364706816aba3e25717850c26c9cd0d89d'' \<and>
   succeeded (download_version_files example_env Map.empty ''1.20''
                ''https://example.org/1.20.json'') \<and>
   retrievals (download_version_files example_env Map.empty ''1.20''
                ''https://example.org/1.20.json'') = 1 \<and>
   retrievals
     (download_version_files example_env
        (files_after (download_version_files example_env Map.empty ''1.20''
                        ''https://example.org/1.20.json''))
        ''1.20'' ''https://example.org/1.20.json'') = 0"
proof -
  have f1: "url_json example_env ''https://example.org/1.20.json'' = Some example_descriptor"
    by (simp add: example_env_def)
  have f2: "client_url example_descriptor = Some ''https://example.org/client.jar''"
    by (simp add: example_descriptor_def)
  have f3: "client_sha1 example_descriptor = Some ''a9993e364706816aba3e25717850c26c9cd0d89d''"
    by (simp add: example_descriptor_def)
  have p: "json_path example_env ''1.20'' \<noteq> jar_path example_env ''1.20''"
    by code_simp
  have miss: "\<not> cache_hit example_env Map.empty (jar_path example_env ''1.20'')
       ''a9993e364706816aba3e25717850c26c9cd0d89d''"
    by (simp add: cache_hit_def)
  have ok: "succeeded (download_version_files example_env Map.empty ''1.20''
                ''https://example.org/1.20.json'')"
    by code_simp
  show ?thesis
    using C2_cache_hit_idempotent [OF f1 f2 f3 p, of Map.empty] f1 f2 f3 p miss ok
    by (simp add: no_download_def)
qed

text \<open>
  C3. A call retrieves nothing exactly on a cache hit, which needs the digest to match
  and not only the file to exist. So a file whose digest does not match is retrieved
  again: the retrieved content replaces it and is verified in its turn. And after a call
  that reported a checksum mismatch, the next call retrieves again instead of reusing
  the file the first one left.
\<close>

theorem C3_corrupt_file_redownloaded:
  "(retrievals (ensure_client_jar e files client sha1 jar) = 0
      \<longleftrightarrow> cache_hit e files jar sha1) \<and>
   (files jar = Some content \<and> sha1_hexdigest e content \<noteq> sha1 \<longrightarrow>
      retrievals (ensure_client_jar e files client sha1 jar) = 1 \<and>
      (\<forall>fresh. url_retrieve e client = Retrieved fresh \<longrightarrow>
         files_after (ensure_client_jar e files client sha1 jar) jar = Some fresh \<and>
         checksum_mismatch (ensure_client_jar e files client sha1 jar)
           = (sha1_hexdigest e fresh \<noteq> sha1))) \<and>
   (checksum_mismatch (ensure_client_jar e files client sha1 jar) \<longrightarrow>
      retrievals
        (ensure_client_jar e (files_after (ensure_client_jar e files client sha1 jar))
           client sha1 jar) = 1)"
proof (intro conjI impI allI)
  show "retrievals (ensure_client_jar e files client sha1 jar) = 0
      \<longleftrightarrow> cache_hit e files jar sha1"
    by (cases "cache_hit e files jar sha1")
       (simp_all add: ensure_hit ensure_miss_retrievals no_download_def)
  show "retrievals (ensure_client_jar e files client sha1 jar) = 1"
    if "files jar = Some content \<and> sha1_hexdigest e content \<noteq> sha1"
    using that by (intro ensure_miss_retrievals) (simp add: cache_hit_def)
  show "files_after (ensure_client_jar e files client sha1 jar) jar = Some fresh"
    if "files jar = Some content \<and> sha1_hexdigest e content \<noteq> sha1"
      and "url_retrieve e client = Retrieved fresh" for fresh
    using that by (simp add: ensure_client_jar_def verify_file_def)
  show "checksum_mismatch (ensure_client_jar e files client sha1 jar)
           = (sha1_hexdigest e fresh \<noteq> sha1)"
    if "files jar = Some content \<and> sha1_hexdigest e content \<noteq> sha1"
      and "url_retrieve e client = Retrieved fresh" for fresh
    using that by (simp add: ensure_client_jar_def verify_file_def)
  show "retrievals
        (ensure_client_jar e (files_after (ensure_client_jar e files client sha1 jar))
           client sha1 jar) = 1"
    if "checksum_mismatch (ensure_client_jar e files client sha1 jar)"
    using that by (intro ensure_miss_retrievals ensure_mismatch_miss)
qed

text \<open>
  The server's content \<open>abc\<close> does not have the expected digest: the file it left is
  retrieved again, the mismatch is reported, and so on the call after.
\<close>

theorem C3_corrupt_file_redownloaded_witness:
  "[''/v/1.20.jar'' \<mapsto> ''abc''] ''/v/1.20.jar'' = Some ''abc'' \<and>
   sha1_hexdigest example_env ''abc'' \<noteq> ''da39a3ee5e6b4b0d3255bfef95601890afd80709'' \<and>
   url_retrieve example_env ''https://example.org/client.jar'' = Retrieved ''abc'' \<and>
   retrievals
     (ensure_client_jar example_env [''/v/1.20.jar'' \<mapsto> ''abc'']
        ''https://example.org/client.jar'' ''da39a3ee5e6b4b0d3255bfef95601890afd80709''
        ''/v/1.20.jar'') = 1 \<and>
   checksum_mismatch
     (ensure_client_jar example_env [''/v/1.20.jar'' \<mapsto> ''abc'']
        ''https://example.org/client.jar'' ''da39a3ee5e6b4b0d3255bfef95601890afd80709''
        ''/v/1.20.jar'') \<and>
   retrievals
     (ensure_client_jar example_env
        (files_after
           (ensure_client_jar example_env [''/v/1.20.jar'' \<mapsto> ''abc'']
              ''https://example.org/client.jar'' ''da39a3ee5e6b4b0d3255bfef95601890afd80709''
              ''/v/1.20.jar''))
        ''https://example.org/client.jar'' ''da39a3ee5e6b4b0d3255bfef95601890afd80709''
        ''/v/1.20.jar'') = 1"
proof -
  have f: "[''/v/1.20.jar'' \<mapsto> ''abc''] ''/v/1.20.jar'' = Some ''abc''"
    by simp
  have d: "sha1_hexdigest example_env ''abc'' \<noteq> ''da39a3ee5e6b4b0d3255bfef95601890afd80709''"
    by code_simp
  have r: "url_retrieve example_env ''https://example.org/client.jar'' = Retrieved ''abc''"
    by (simp add: example_env_def)
  show ?thesis
    using C3_corrupt_file_redownloaded
            [of example_env "[''/v/1.20.jar'' \<mapsto> ''abc'']" "''https://example.org/client.jar''"
                "''da39a3ee5e6b4b0d3255bfef95601890afd80709''" "''/v/1.20.jar''" "''abc''"]
          f d r
    by blast
qed

section \<open>Properties of the manifest catalog\<close>

lemma category_of_name:
  "category_of lr ls vid v = Inr (Some k) \<Longrightarrow> k \<in> set category_names"
  by (auto simp: category_of_def category_names_def split: if_splits option.splits)

lemma category_of_typed:
  "entry_type v = Some t \<Longrightarrow> \<exists>c. category_of lr ls vid v = Inr c"
  by (simp add: category_of_def)

lemma has_categories_upd:
  "has_categories st \<Longrightarrow>
     has_categories (st\<lparr>versions := vs', version_categories := (version_categories st)(k \<mapsto> ids)\<rparr>)"
  by (simp add: has_categories_def list_all_iff)

lemma classify_complete:
  "entries_complete vs \<Longrightarrow> has_categories st \<Longrightarrow>
     snd (classify lr ls st vs) = None \<and>
     (\<forall>k. version_categories (fst (classify lr ls st vs)) k
            = map_option (\<lambda>ids. ids @ ids_where (\<lambda>vid v. category_of lr ls vid v = Inr (Some k)) vs)
                (version_categories st k))"
proof (induction vs arbitrary: st)
  case Nil
  show ?case by (simp add: ids_where_def option.map_ident)
next
  case (Cons v vs)
  from Cons.prems(1) obtain vid u t
    where v: "entry_id v = Some vid" "entry_url v = Some u" "entry_type v = Some t"
      and rest: "entries_complete vs"
    by (auto simp: entries_complete_def)
  let ?st1 = "st\<lparr>versions := (versions st)(vid \<mapsto> u)\<rparr>"
  have keys1: "has_categories ?st1"
    using Cons.prems(2) by (simp add: has_categories_def)
  from v(3) obtain c where c: "category_of lr ls vid v = Inr c"
    using category_of_typed by blast
  show ?case
  proof (cases c)
    case None
    then show ?thesis
      using v c Cons.IH [OF rest keys1]
      by (simp add: ids_where_def)
  next
    case (Some k)
    with c have "k \<in> set category_names" by (auto dest: category_of_name)
    with Cons.prems(2) obtain ids where ids: "version_categories st k = Some ids"
      by (auto simp: has_categories_def list_all_iff)
    let ?st2 = "?st1\<lparr>version_categories := (version_categories ?st1)(k \<mapsto> ids @ [vid])\<rparr>"
    have keys2: "has_categories ?st2"
      using Cons.prems(2) by (simp add: has_categories_def list_all_iff)
    show ?thesis
      using v c Some ids Cons.IH [OF rest keys2]
      by (auto simp: ids_where_def)
  qed
qed

lemma category_of_cases:
  "(\<lambda>vid v. category_of lr ls vid v = Inr (Some ''Latest Release'')) = (\<lambda>vid v. vid = lr)"
  "(\<lambda>vid v. category_of lr ls vid v = Inr (Some ''Latest Snapshot''))
     = (\<lambda>vid v. vid \<noteq> lr \<and> vid = ls)"
  "(\<lambda>vid v. category_of lr ls vid v = Inr (Some ''Release''))
     = (\<lambda>vid v. vid \<noteq> lr \<and> vid \<noteq> ls \<and> entry_type v = Some ''release'')"
  "(\<lambda>vid v. category_of lr ls vid v = Inr (Some ''Snapshot''))
     = (\<lambda>vid v. vid \<noteq> lr \<and> vid \<noteq> ls \<and> entry_type v = Some ''snapshot'')"
  "(\<lambda>vid v. category_of lr ls vid v = Inr (Some ''Old Beta''))
     = (\<lambda>vid v. vid \<noteq> lr \<and> vid \<noteq> ls \<and> entry_type v = Some ''old_beta'')"
  "(\<lambda>vid v. category_of lr ls vid v = Inr (Some ''Old Alpha''))
     = (\<lambda>vid v. vid \<noteq> lr \<and> vid \<noteq> ls \<and> entry_type v = Some ''old_alpha'')"
  by (auto simp: fun_eq_iff category_of_def split: option.splits)

lemma load_categories:
  assumes "latest_release m = Some lr" and "latest_snapshot m = Some ls"
    and "manifest_versions m = Some vs" and "entries_complete vs" and "has_categories st"
    and "k \<in> set category_names"
  shows "snd (load_version_manifest st (Some m)) = None"
    and "version_categories (fst (load_version_manifest st (Some m))) k
           = Some (ids_where (\<lambda>vid v. category_of lr ls vid v = Inr (Some k)) vs)"
proof -
  let ?st0 = "st\<lparr>version_categories := (\<lambda>k. map_option (\<lambda>ids. []) (version_categories st k))\<rparr>"
  have keys0: "has_categories ?st0"
    using assms(5) by (simp add: has_categories_def list_all_iff)
  have load: "load_version_manifest st (Some m) = classify lr ls ?st0 vs"
    using assms(1-3) by (simp add: load_version_manifest_def)
  from assms(5,6) obtain old where "version_categories st k = Some old"
    by (auto simp: has_categories_def list_all_iff)
  then have empty: "version_categories ?st0 k = Some []"
    by simp
  show "snd (load_version_manifest st (Some m)) = None"
    using classify_complete [OF assms(4) keys0] load by simp
  show "version_categories (fst (load_version_manifest st (Some m))) k
           = Some (ids_where (\<lambda>vid v. category_of lr ls vid v = Inr (Some k)) vs)"
    using classify_complete [OF assms(4) keys0, of lr ls] load empty by simp
qed

text \<open>
  C6 (amended). When the manifest is classified (every entry having its id, url and
  type), each listed version is placed in one channel only, the latest pointers first: a
  version whose id is the latest-release pointer goes to Latest Release and not to the
  channel of its type; otherwise one whose id is the latest-snapshot pointer goes to
  Latest Snapshot and not to the channel of its type; every other version goes to the
  channel of its type. Each channel lists its ids in manifest order.
\<close>

theorem C6_one_channel_each:
  assumes "latest_release m = Some lr" and "latest_snapshot m = Some ls"
    and "manifest_versions m = Some vs" and "entries_complete vs" and "has_categories st"
  shows "snd (load_version_manifest st (Some m)) = None \<and>
         version_categories (fst (load_version_manifest st (Some m))) ''Latest Release''
           = Some (ids_where (\<lambda>vid v. vid = lr) vs) \<and>
         version_categories (fst (load_version_manifest st (Some m))) ''Latest Snapshot''
           = Some (ids_where (\<lambda>vid v. vid \<noteq> lr \<and> vid = ls) vs) \<and>
         version_categories (fst (load_version_manifest st (Some m))) ''Release''
           = Some (ids_where
                     (\<lambda>vid v. vid \<noteq> lr \<and> vid \<noteq> ls \<and> entry_type v = Some ''release'') vs) \<and>
         version_categories (fst (load_version_manifest st (Some m))) ''Snapshot''
           = Some (ids_where
                     (\<lambda>vid v. vid \<noteq> lr \<and> vid \<noteq> ls \<and> entry_type v = Some ''snapshot'') vs) \<and>
         version_categories (fst (load_version_manifest st (Some m))) ''Old Beta''
           = Some (ids_where
                     (\<lambda>vid v. vid \<noteq> lr \<and> vid \<noteq> ls \<and> entry_type v = Some ''old_beta'') vs) \<and>
         version_categories (fst (load_version_manifest st (Some m))) ''Old Alpha''
           = Some (ids_where
                     (\<lambda>vid v. vid \<noteq> lr \<and> vid \<noteq> ls \<and> entry_type v = Some ''old_alpha'') vs)"
proof -
  have names: "''Latest Release'' \<in> set category_names" "''Latest Snapshot'' \<in> set category_names"
    "''Release'' \<in> set category_names" "''Snapshot'' \<in> set category_names"
    "''Old Beta'' \<in> set category_names" "''Old Alpha'' \<in> set category_names"
    by (simp_all add: category_names_def)
  note cats = names [THEN load_categories(2) [OF assms], unfolded category_of_cases]
  show ?thesis
    using load_categories(1) [OF assms names(1)] cats by blast
qed

text \<open>
  The scenario of the specification: Latest Release is [1.21], Latest Snapshot is
  [1.22-pre1] and Release is [1.20].
\<close>

theorem C6_one_channel_each_witness:
  "latest_release example_manifest = Some ''1.21'' \<and>
   latest_snapshot example_manifest = Some ''1.22-pre1'' \<and>
   has_categories init_launcher \<and>
   version_categories (fst (load_version_manifest init_launcher (Some example_manifest)))
     ''Latest Release'' = Some [''1.21''] \<and>
   version_categories (fst (load_version_manifest init_launcher (Some example_manifest)))
     ''Latest Snapshot'' = Some [''1.22-pre1''] \<and>
   version_categories (fst (load_version_manifest init_launcher (Some example_manifest)))
     ''Release'' = Some [''1.20'']"
proof -
  define vs where "vs =
        [\<lparr>entry_id = Some ''1.21'', entry_url = Some ''https://example.org/1.21.json'',
          entry_type = Some ''release''\<rparr>,
         \<lparr>entry_id = Some ''1.22-pre1'', entry_url = Some ''https://example.org/1.22-pre1.json'',
          entry_type = Some ''snapshot''\<rparr>,
         \<lparr>entry_id = Some ''1.20'', entry_url = Some ''https://example.org/1.20.json'',
          entry_type = Some ''release''\<rparr>]"
  have m: "latest_release example_manifest = Some ''1.21''"
    "latest_snapshot example_manifest = Some ''1.22-pre1''"
    "manifest_versions example_manifest = Some vs"
    by (simp_all add: example_manifest_def vs_def)
  have c: "entries_complete vs"
    by (simp add: entries_complete_def vs_def)
  have k: "has_categories init_launcher"
    by (simp add: has_categories_def category_names_def init_launcher_def)
  have e: "ids_where (\<lambda>vid v. vid = ''1.21'') vs = [''1.21'']"
    "ids_where (\<lambda>vid v. vid \<noteq> ''1.21'' \<and> vid = ''1.22-pre1'') vs = [''1.22-pre1'']"
    "ids_where (\<lambda>vid v. vid \<noteq> ''1.21'' \<and> vid \<noteq> ''1.22-pre1'' \<and> entry_type v = Some ''release'') vs
       = [''1.20'']"
    by (simp_all add: ids_where_def vs_def map_filter_simps)
  show ?thesis
    using C6_one_channel_each [OF m c k] m(1,2) k e by simp
qed

text \<open>
  C6 as stated fails: in the scenario the Release channel is [1.20], not [1.21, 1.20].
\<close>

theorem C6_counterexample:
  "version_categories (fst (load_version_manifest init_launcher (Some example_manifest)))
     ''Release'' = Some [''1.20''] \<and>
   version_categories (fst (load_version_manifest init_launcher (Some example_manifest)))
     ''Release'' \<noteq> Some [''1.21'', ''1.20'']"
  by code_simp

section \<open>Properties of the launch planner\<close>

lemma add_libraries_paths:
  "artifacts_have_path libs \<Longrightarrow>
     add_libraries e dir classpath libs
       = Inr (classpath @ map (\<lambda>p. path_join e [dir, p]) (List.map_filter library_path libs))"
proof (induction libs arbitrary: classpath)
  case Nil
  show ?case by (simp add: map_filter_simps)
next
  case (Cons lib libs)
  from Cons.prems have rest: "artifacts_have_path libs"
    and this_lib: "\<not> declares_artifact lib \<or> library_path lib \<noteq> None"
    by (simp_all add: artifacts_have_path_def)
  show ?case
    using this_lib Cons.IH [OF rest]
    by (auto simp: declares_artifact_def library_path_def map_filter_simps
             split: option.splits)
qed

lemma add_libraries_no_path:
  "declares_artifact lib \<Longrightarrow> library_path lib = None \<Longrightarrow>
     add_libraries e dir classpath (lib # libs) = Inl (KeyError ''path'')"
  by (auto simp: declares_artifact_def library_path_def split: option.splits)

lemma build_classpath:
  "build_launch_command e version username ram (Some vd) = Inr cmd \<Longrightarrow>
   classpath_entries e version vd = Inr classpath \<Longrightarrow>
     \<exists>front back. cmd = front @ [''-cp'', classpath_join (current_os e) classpath] @ back"
  by (auto simp: build_launch_command_def split: sum.splits)

text \<open>
  C4. For every descriptor whose downloadable artifacts have their paths, the classpath
  entries are the client jar followed by the path of every library that declares a
  downloadable artifact, in declaration order, nothing removed for being a duplicate and
  the libraries without such an artifact left out. The classpath string joins the entries
  with a semicolon on Windows and a colon otherwise, and it is what follows \<open>-cp\<close> in
  the command.
\<close>

theorem C4_classpath_order:
  assumes "artifacts_have_path (library_list vd)"
  shows "classpath_entries e version vd
           = Inr (jar_path e version #
                  map (\<lambda>p. path_join e [libraries_dir e, p])
                    (List.map_filter library_path (library_list vd))) \<and>
         classpath_join os_name classpath
           = str_join (if os_name = ''windows'' then '';'' else '':'') classpath \<and>
         (\<forall>cmd. build_launch_command e version username ram (Some vd) = Inr cmd \<longrightarrow>
            (\<exists>front back.
               cmd = front @
                 [''-cp'',
                  classpath_join (current_os e)
                    (jar_path e version #
                     map (\<lambda>p. path_join e [libraries_dir e, p])
                       (List.map_filter library_path (library_list vd)))] @ back))"
proof -
  have entries: "classpath_entries e version vd
           = Inr (jar_path e version #
                  map (\<lambda>p. path_join e [libraries_dir e, p])
                    (List.map_filter library_path (library_list vd)))"
    using add_libraries_paths [OF assms] by (simp add: classpath_entries_def)
  have joined: "classpath_join os_name classpath
           = str_join (if os_name = ''windows'' then '';'' else '':'') classpath"
    by (simp add: classpath_join_def)
  show ?thesis
    using entries joined build_classpath [OF _ entries] by blast
qed

text \<open>
  The example descriptor: the client jar, then the libraries a and b; the library
  between them has no artifact.
\<close>

theorem C4_classpath_order_witness:
  "artifacts_have_path (library_list example_descriptor) \<and>
   classpath_entries example_env ''1.20'' example_descriptor
     = Inr [''/home/steve/.minecraft/versions/1.20/1.20.jar'',
            ''/home/steve/.minecraft/libraries/a/a.jar'',
            ''/home/steve/.minecraft/libraries/b/b.jar''] \<and>
   classpath_join ''windows'' [''C'', ''A'', ''B''] = ''C;A;B'' \<and>
   classpath_join ''linux'' [''C'', ''A'', ''B''] = ''C:A:B''"
proof -
  have ok: "artifacts_have_path (library_list example_descriptor)"
    by code_simp
  have paths: "jar_path example_env ''1.20'' #
                  map (\<lambda>p. path_join example_env [libraries_dir example_env, p])
                    (List.map_filter library_path (library_list example_descriptor))
      = [''/home/steve/.minecraft/versions/1.20/1.20.jar'',
            ''/home/steve/.minecraft/libraries/a/a.jar'',
            ''/home/steve/.minecraft/libraries/b/b.jar'']"
    by code_simp
  have w: "str_join (if ''windows'' = ''windows'' then '';'' else '':'') [''C'', ''A'', ''B''] = ''C;A;B''"
    by simp
  have l: "str_join (if ''linux'' = ''windows'' then '';'' else '':'') [''C'', ''A'', ''B''] = ''C:A:B''"
    by simp
  show ?thesis
    using C4_classpath_order [OF ok, of example_env "''1.20''" "''windows''" "[''C'', ''A'', ''B'']"]
          C4_classpath_order [OF ok, of example_env "''1.20''" "''linux''" "[''C'', ''A'', ''B'']"]
          ok paths w l
    by (simp only: simp_thms)
qed



lemma fixups_flag_free: "\<not> str_contains ''-Djava.library.path'' ''-XstartOnFirstThread''"
  by code_simp

text \<open>
  C8 (amended). After the declarative pass the flags it produced are unchanged and at
  most two flags follow them: on the macOS platform \<open>-XstartOnFirstThread\<close>, unless it is
  already an element of the command; then \<open>-Djava.library.path=\<close> with the natives
  directory, unless some element of the command contains \<open>-Djava.library.path\<close>
  anywhere in it.
\<close>

theorem C8_jvm_fixups:
  "jvm_fixups os_name natives cmd
     = cmd @
       (if os_name = ''osx'' \<and> ''-XstartOnFirstThread'' \<notin> set cmd
        then [''-XstartOnFirstThread''] else []) @
       (if list_ex (str_contains ''-Djava.library.path'') cmd
        then [] else [''-Djava.library.path='' @ natives]) \<and>
   (add_arguments (current_os e) [java_exe e, ''-Xmx'' @ str_int ram @ ''G''] (jvm_arguments vd)
      = Inr flags \<longrightarrow>
    jvm_part e version ram vd
      = Inr (jvm_fixups (current_os e) (path_join e [version_dir e version, ''natives'']) flags))"
  using fixups_flag_free by (simp add: jvm_fixups_def jvm_part_def)

text \<open>On macOS both flags are appended to the flags of the example descriptor.\<close>

theorem C8_jvm_fixups_witness:
  "add_arguments (current_os (example_env\<lparr>platform_system := ''Darwin''\<rparr>))
     [java_exe (example_env\<lparr>platform_system := ''Darwin''\<rparr>), ''-Xmx'' @ str_int 4 @ ''G'']
     (jvm_arguments example_descriptor)
     = Inr [''java'', ''-Xmx4G'', ''-Dfoo=1'', ''-Xdock:name=x''] \<and>
   jvm_part (example_env\<lparr>platform_system := ''Darwin''\<rparr>) ''1.20'' 4 example_descriptor
     = Inr [''java'', ''-Xmx4G'', ''-Dfoo=1'', ''-Xdock:name=x'', ''-XstartOnFirstThread'',
            ''-Djava.library.path=/home/steve/.minecraft/versions/1.20/natives'']"
proof -
  let ?e = "example_env\<lparr>platform_system := ''Darwin''\<rparr>"
  have a: "add_arguments (current_os ?e) [java_exe ?e, ''-Xmx'' @ str_int 4 @ ''G'']
             (jvm_arguments example_descriptor)
           = Inr [''java'', ''-Xmx4G'', ''-Dfoo=1'', ''-Xdock:name=x'']"
    by code_simp
  have f: "jvm_fixups (current_os ?e) (path_join ?e [version_dir ?e ''1.20'', ''natives''])
             [''java'', ''-Xmx4G'', ''-Dfoo=1'', ''-Xdock:name=x'']
           = [''java'', ''-Xmx4G'', ''-Dfoo=1'', ''-Xdock:name=x'', ''-XstartOnFirstThread'',
              ''-Djava.library.path=/home/steve/.minecraft/versions/1.20/natives'']"
    by code_simp
  show ?thesis
    using C8_jvm_fixups [of _ _ _ ?e 4 example_descriptor
                            "[''java'', ''-Xmx4G'', ''-Dfoo=1'', ''-Xdock:name=x'']" "''1.20''"]
          a f
    by (simp only: simp_thms)
qed

text \<open>
  C8 as stated fails: no element of the command begins with \<open>-Djava.library.path\<close>, one
  contains it, and the library path flag is not appended.
\<close>

theorem C8_counterexample:
  "jvm_part example_env ''1.20'' 4
     (example_descriptor\<lparr>arguments :=
        Some \<lparr>jvm = Some [ArgStr ''-Dalt=-Djava.library.path=/x''], game = None\<rparr>\<rparr>)
     = Inr [''java'', ''-Xmx4G'', ''-Dalt=-Djava.library.path=/x''] \<and>
   list_ex (prefix ''-Djava.library.path'')
     [''java'', ''-Xmx4G'', ''-Dalt=-Djava.library.path=/x''] = False"
  by code_simp



section \<open>Properties of the placeholder replacement\<close>

lemma marker_Cons: "marker k \<Longrightarrow> \<exists>kb. k = CHR ''$'' # kb \<and> dollar_free kb"
  by (cases k) (simp_all add: marker_def)

lemma replace_scan_dollar_free:
  "marker k \<Longrightarrow> dollar_free s \<Longrightarrow> replace_scan k v s = s"
proof (induction s)
  case Nil
  show ?case by simp
next
  case (Cons c cs)
  from Cons.prems(1) obtain kb where k: "k = CHR ''$'' # kb"
    using marker_Cons by blast
  from Cons.prems(2) have c: "c \<noteq> CHR ''$''" and cs: "dollar_free cs"
    by (auto simp: dollar_free_def)
  show ?case
    using c k Cons.IH [OF Cons.prems(1) cs] by simp
qed

lemma replace_scan_text:
  "marker k \<Longrightarrow> dollar_free t \<Longrightarrow> replace_scan k v (t @ s) = t @ replace_scan k v s"
proof (induction t)
  case Nil
  show ?case by simp
next
  case (Cons c cs)
  from Cons.prems(1) obtain kb where k: "k = CHR ''$'' # kb"
    using marker_Cons by blast
  from Cons.prems(2) have c: "c \<noteq> CHR ''$''" and cs: "dollar_free cs"
    by (auto simp: dollar_free_def)
  show ?case
    using c k Cons.IH [OF Cons.prems(1) cs] by simp
qed

lemma replace_scan_key:
  "marker k \<Longrightarrow> replace_scan k v (k @ s) = v @ replace_scan k v s"
proof -
  assume "marker k"
  then obtain kb where k: "k = CHR ''$'' # kb"
    using marker_Cons by blast
  show ?thesis
    unfolding k by simp
qed

lemma replace_scan_other:
  assumes "marker k" and "marker m" and "apart k m"
  shows "replace_scan k v (m @ s) = m @ replace_scan k v s"
proof -
  from assms(2) obtain mb where m: "m = CHR ''$'' # mb" and mb: "dollar_free mb"
    using marker_Cons by blast
  have "\<not> prefix k (m @ s)"
  proof
    assume "prefix k (m @ s)"
    moreover have "prefix m (m @ s)" by simp
    ultimately have "prefix k m \<or> prefix m k"
      by (rule prefix_same_cases)
    with assms(3) show False by (simp add: apart_def)
  qed
  then have "replace_scan k v (m @ s) = CHR ''$'' # replace_scan k v (mb @ s)"
    by (simp add: m)
  also have "\<dots> = m @ replace_scan k v s"
    using replace_scan_text [OF assms(1) mb] by (simp add: m)
  finally show ?thesis .
qed

lemma replace_scan_render:
  "marker k \<Longrightarrow> list_all (piece_ok [k]) ps \<Longrightarrow>
     replace_scan k v (render ps) = render (map (subst1 k v) ps)"
proof (induction ps)
  case Nil
  show ?case by (simp add: render_def)
next
  case (Cons p ps)
  from Cons.prems(2) have p: "piece_ok [k] p" and rest: "list_all (piece_ok [k]) ps"
    by simp_all
  note IH = Cons.IH [OF Cons.prems(1) rest]
  show ?case
  proof (cases p)
    case (Text s)
    with p have "dollar_free s" by simp
    then show ?thesis
      using Text IH replace_scan_text [OF Cons.prems(1)] by (simp add: render_def)
  next
    case (Mark m)
    show ?thesis
    proof (cases "m = k")
      case True
      then show ?thesis
        using Mark IH replace_scan_key [OF Cons.prems(1)] by (simp add: render_def)
    next
      case False
      with p Mark have "marker m" and "apart k m" by auto
      then show ?thesis
        using Mark False IH replace_scan_other [OF Cons.prems(1)] by (simp add: render_def)
    qed
  qed
qed

lemma subst_all_Text: "subst_all reps (Text s) = Text s"
  by (induction reps) (auto simp: subst_all_def)

lemma subst_all_text: "piece_text (subst_all reps p) = substitute_piece reps p"
proof (induction reps)
  case Nil
  show ?case by (cases p) (simp_all add: subst_all_def)
next
  case (Cons kv reps)
  obtain k v where kv: "kv = (k, v)" by (cases kv)
  show ?case
  proof (cases p)
    case (Text s)
    then show ?thesis by (simp add: subst_all_Text)
  next
    case (Mark m)
    have step: "subst_all (kv # reps) p = subst_all reps (subst1 k v p)"
      by (simp add: subst_all_def kv)
    show ?thesis
      using Mark Cons.IH step subst_all_Text [of reps v] by (simp add: kv)
  qed
qed

lemma piece_ok_subst1:
  "piece_ok (k # keys) p \<Longrightarrow> dollar_free v \<Longrightarrow> piece_ok keys (subst1 k v p)"
  by (cases p) auto

lemma piece_ok_head: "piece_ok (k # keys) p \<Longrightarrow> piece_ok [k] p"
  by (cases p) auto

lemma replace_ph_render:
  "table_ok reps \<Longrightarrow> list_all (piece_ok (map fst reps)) ps \<Longrightarrow>
     replace_ph reps (render ps) = render (map (subst_all reps) ps)"
proof (induction reps arbitrary: ps)
  case Nil
  show ?case by (simp add: replace_ph_def subst_all_def)
next
  case (Cons kv reps)
  obtain k v where kv: "kv = (k, v)" by (cases kv)
  from Cons.prems(1) have k: "marker k" and v: "dollar_free v" and rest: "table_ok reps"
    by (simp_all add: table_ok_def kv)
  from k have "k \<noteq> []" by (auto simp: marker_def)
  then have py: "py_replace k v (render ps) = replace_scan k v (render ps)"
    by (simp add: py_replace_def)
  have ok1: "list_all (piece_ok [k]) ps"
    using Cons.prems(2) by (auto simp: kv list_all_iff intro: piece_ok_head)
  have ok2: "list_all (piece_ok (map fst reps)) (map (subst1 k v) ps)"
    using Cons.prems(2) v by (auto simp: kv list_all_iff intro: piece_ok_subst1)
  have "replace_ph (kv # reps) (render ps) = replace_ph reps (py_replace k v (render ps))"
    by (simp add: replace_ph_def kv)
  also have "\<dots> = replace_ph reps (render (map (subst1 k v) ps))"
    by (simp only: py replace_scan_render [OF k ok1])
  also have "\<dots> = render (map (subst_all reps) (map (subst1 k v) ps))"
    by (rule Cons.IH [OF rest ok2])
  also have "\<dots> = render (map (subst_all (kv # reps)) ps)"
  proof -
    have "subst_all reps (subst1 k v p) = subst_all (kv # reps) p" for p
      by (simp add: subst_all_def kv)
    then show ?thesis by (simp add: comp_def)
  qed
  finally show ?case .
qed

lemma replace_ph_substitute:
  "table_ok reps \<Longrightarrow> list_all (piece_ok (map fst reps)) ps \<Longrightarrow>
     replace_ph reps (render ps) = substitute reps ps"
proof -
  assume a: "table_ok reps" "list_all (piece_ok (map fst reps)) ps"
  have "render (map (subst_all reps) ps) = substitute reps ps"
    by (simp add: render_def substitute_def comp_def subst_all_text)
  with replace_ph_render [OF a] show ?thesis by simp
qed

lemma str_contains_Nil: "str_contains [] s"
  by (cases s) simp_all

lemma replace_scan_absent: "\<not> str_contains k s \<Longrightarrow> replace_scan k v s = s"
  by (induction s) auto

lemma py_replace_absent: "\<not> str_contains k s \<Longrightarrow> py_replace k v s = s"
  using str_contains_Nil [of s] by (auto simp: py_replace_def replace_scan_absent)

lemma replace_ph_absent:
  "list_all (\<lambda>k. \<not> str_contains k a) (map fst reps) \<Longrightarrow> replace_ph reps a = a"
proof (induction reps)
  case Nil
  show ?case by (simp add: replace_ph_def)
next
  case (Cons kv reps)
  obtain k v where kv: "kv = (k, v)" by (cases kv)
  from Cons.prems have k: "\<not> str_contains k a"
    and rest: "list_all (\<lambda>k. \<not> str_contains k a) (map fst reps)"
    by (simp_all add: kv)
  have "replace_ph (kv # reps) a = replace_ph reps (py_replace k v a)"
    by (simp add: replace_ph_def kv)
  then show ?case
    using py_replace_absent [OF k] Cons.IH [OF rest] by simp
qed

lemma replacements_keys: "map fst (replacements e username version vd) = placeholder_keys"
  by (simp add: replacements_def placeholder_keys_def)

lemma placeholder_keys_markers: "list_all marker placeholder_keys"
  by code_simp

lemma placeholder_keys_distinct: "distinct placeholder_keys"
  by code_simp

lemma piece_ok_set: "set keys = set keys' \<Longrightarrow> piece_ok keys p = piece_ok keys' p"
  by (cases p) (simp_all add: list_all_iff)

lemma substitute_map_of: "map_of reps = map_of reps' \<Longrightarrow> substitute reps ps = substitute reps' ps"
proof -
  assume same: "map_of reps = map_of reps'"
  have "substitute_piece reps p = substitute_piece reps' p" for p
    by (cases p) (simp_all add: same)
  then have "substitute_piece reps = substitute_piece reps'"
    by (simp add: fun_eq_iff)
  then show ?thesis by (simp add: substitute_def)
qed

text \<open>
  C5 (amended). The keys are replaced one after another, each by literal substring
  replacement in the text the replacements before it produced. Let the table be taken in
  any order of its keys. For a token that is a sequence of plain text without a dollar
  sign and of markers, each marker a known key or apart from every known key, and for
  replacement values without a dollar sign, the result is that of the single pass: every
  occurrence of every known key is replaced by its value and an unknown marker is left
  as it is, whatever the order of the keys. And a token in which no known key occurs is
  returned unchanged, whatever the values.
\<close>

theorem C5_placeholders:
  assumes "distinct (map fst reps)"
    and "set reps = set (replacements e username version vd)"
  shows "(list_all (\<lambda>kv. dollar_free (snd kv)) (replacements e username version vd) \<and>
          list_all (piece_ok placeholder_keys) ps \<longrightarrow>
            replace_ph reps (render ps) = substitute (replacements e username version vd) ps) \<and>
         (list_all (\<lambda>k. \<not> str_contains k a) placeholder_keys \<longrightarrow> replace_ph reps a = a)"
proof (intro conjI impI)
  let ?R = "replacements e username version vd"
  have "set (map fst reps) = fst ` set reps"
    by simp
  also have "\<dots> = fst ` set ?R"
    by (simp only: assms(2))
  also have "\<dots> = set (map fst ?R)"
    by simp
  finally have keys: "set (map fst reps) = set placeholder_keys"
    by (simp only: replacements_keys)
  show "replace_ph reps a = a" if "list_all (\<lambda>k. \<not> str_contains k a) placeholder_keys"
  proof (rule replace_ph_absent)
    show "list_all (\<lambda>k. \<not> str_contains k a) (map fst reps)"
      using that keys unfolding list_all_iff by blast
  qed
  show "replace_ph reps (render ps) = substitute ?R ps"
    if h: "list_all (\<lambda>kv. dollar_free (snd kv)) ?R \<and> list_all (piece_ok placeholder_keys) ps"
  proof -
    have "table_ok reps"
      unfolding table_ok_def list_all_iff
    proof (intro ballI)
      fix kv assume kv: "kv \<in> set reps"
      then have "fst kv \<in> fst ` set reps"
        by (rule imageI)
      then have "fst kv \<in> set placeholder_keys"
        using keys by simp
      then have "marker (fst kv)"
        using placeholder_keys_markers unfolding list_all_iff by blast
      moreover have "dollar_free (snd kv)"
        using h kv assms(2) unfolding list_all_iff by blast
      ultimately show "case kv of (k, v) \<Rightarrow> marker k \<and> dollar_free v"
        by (cases kv) simp
    qed
    moreover have "list_all (piece_ok (map fst reps)) ps"
      using h piece_ok_set [OF keys] by (simp add: list_all_iff)
    ultimately have "replace_ph reps (render ps) = substitute reps ps"
      by (rule replace_ph_substitute)
    also have "map_of reps = map_of ?R"
    proof -
      have "distinct (map fst ?R)"
        by (simp only: replacements_keys placeholder_keys_distinct)
      from map_of_inject_set [OF assms(1) this] assms(2) show ?thesis
        by (rule iffD2)
    qed
    then have "substitute reps ps = substitute ?R ps"
      by (rule substitute_map_of)
    finally show ?thesis .
  qed
qed

text \<open>
  With the keys in reverse order, the user name Steve is put in and the unknown marker
  stays; a token without keys stays as it is.
\<close>

theorem C5_placeholders_witness:
  "distinct (map fst (rev (replacements example_env ''Steve'' ''1.20'' example_descriptor))) \<and>
   list_all (\<lambda>kv. dollar_free (snd kv))
     (replacements example_env ''Steve'' ''1.20'' example_descriptor) \<and>
   list_all (piece_ok placeholder_keys)
     [Text ''--username '', Mark ''${auth_player_name}'', Text '' '', Mark ''${foo}''] \<and>
   render [Text ''--username '', Mark ''${auth_player_name}'', Text '' '', Mark ''${foo}'']
     = ''--username ${auth_player_name} ${foo}'' \<and>
   replace_ph (rev (replacements example_env ''Steve'' ''1.20'' example_descriptor))
     ''--username ${auth_player_name} ${foo}'' = ''--username Steve ${foo}'' \<and>
   list_all (\<lambda>k. \<not> str_contains k ''--demo'') placeholder_keys \<and>
   replace_ph (rev (replacements example_env ''Steve'' ''1.20'' example_descriptor)) ''--demo''
     = ''--demo''"
proof -
  let ?R = "replacements example_env ''Steve'' ''1.20'' example_descriptor"
  let ?ps = "[Text ''--username '', Mark ''${auth_player_name}'', Text '' '', Mark ''${foo}'']"
  have d: "distinct (map fst (rev ?R))"
    by (simp add: replacements_keys rev_map [symmetric] placeholder_keys_distinct)
  have s: "set (rev ?R) = set ?R"
    by simp
  have v: "list_all (\<lambda>kv. dollar_free (snd kv)) ?R"
    by code_simp
  have p: "list_all (piece_ok placeholder_keys) ?ps"
    by code_simp
  have r: "render ?ps = ''--username ${auth_player_name} ${foo}''"
    by code_simp
  have u: "substitute ?R ?ps = ''--username Steve ${foo}''"
    by code_simp
  have n: "list_all (\<lambda>k. \<not> str_contains k ''--demo'') placeholder_keys"
    by code_simp
  show ?thesis
    using C5_placeholders [OF d s, of ?ps "''--demo''"] d v p r u n
    by (simp only: simp_thms)
qed

text \<open>
  C5 as stated fails: with the user name \<open>${version_name}\<close> the code replaces the text
  it has just inserted, where a single pass gives \<open>${version_name}\<close>; and the keys in
  reverse order give another result.
\<close>

theorem C5_counterexample:
  "replace_ph (replacements example_env ''${version_name}'' ''1.20'' example_descriptor)
     ''${auth_player_name}'' = ''1.20'' \<and>
   replace_ph (rev (replacements example_env ''${version_name}'' ''1.20'' example_descriptor))
     ''${auth_player_name}'' = ''${version_name}'' \<and>
   substitute (replacements example_env ''${version_name}'' ''1.20'' example_descriptor)
     [Mark ''${auth_player_name}''] = ''${version_name}''"
  by code_simp

end
